theory Spec2Isabelle
  imports Main "HOL-Library.Word"
begin

unbundle bit_operations_syntax

section \<open>Data model of the collective-instance scheduler\<close>

text \<open>
  The embedding follows \<^verbatim>\<open>lib/pacemaker/pcmk_sched_instances.c\<close>. Scores, node counts
  and the per-node cap are C \<^verbatim>\<open>int\<close>s that the code only compares and increments by one
  below a cap; they are \<open>int\<close> here. Flag groups are machine words, and the mixed
  signed/unsigned arithmetic of the assignment setup is done on \<open>32 word\<close>.
\<close>

subsection \<open>Flag groups\<close>

text \<open>
  \<^verbatim>\<open>pcmk_is_set\<close>, \<^verbatim>\<open>pcmk_all_flags_set\<close> and \<^verbatim>\<open>pcmk_any_flags_set\<close> are the inline helpers
  of the common library: all (respectively any) of the bits of the second argument are
  set in the first.
\<close>

definition pcmk_all_flags_set :: "'a::len word \<Rightarrow> 'a word \<Rightarrow> bool" where
  "pcmk_all_flags_set flag_group flags_to_check = (flag_group AND flags_to_check = flags_to_check)"

definition pcmk_is_set :: "'a::len word \<Rightarrow> 'a word \<Rightarrow> bool" where
  "pcmk_is_set g f = pcmk_all_flags_set g f"

definition pcmk_any_flags_set :: "'a::len word \<Rightarrow> 'a word \<Rightarrow> bool" where
  "pcmk_any_flags_set flag_group flags_to_check = (flag_group AND flags_to_check \<noteq> 0)"

text \<open>
  Modelled from the spec: the resource flags \<open>orphan\<close>, \<open>managed\<close>, \<open>block\<close>,
  \<open>provisional\<close>, \<open>allocating\<close> and \<open>failed\<close> are single bits of the 64-bit resource
  flag word; their declarations are in a header outside this file.
\<close>

definition pe_rsc_orphan :: "64 word" where "pe_rsc_orphan = 0x00000001"
definition pe_rsc_managed :: "64 word" where "pe_rsc_managed = 0x00000002"
definition pe_rsc_block :: "64 word" where "pe_rsc_block = 0x00000004"
definition pe_rsc_provisional :: "64 word" where "pe_rsc_provisional = 0x00000100"
definition pe_rsc_allocating :: "64 word" where "pe_rsc_allocating = 0x00000200"
definition pe_rsc_failed :: "64 word" where "pe_rsc_failed = 0x00010000"

text \<open>
  Modelled from the spec: the action flags \<open>pseudo\<close>, \<open>runnable\<close>, \<open>optional\<close> and
  \<open>migrate_runnable\<close> are single bits of the 32-bit action flag word.
\<close>

definition pe_action_pseudo :: "32 word" where "pe_action_pseudo = 0x00001"
definition pe_action_runnable :: "32 word" where "pe_action_runnable = 0x00002"
definition pe_action_optional :: "32 word" where "pe_action_optional = 0x00004"
definition pe_action_migrate_runnable :: "32 word" where "pe_action_migrate_runnable = 0x00080"

text \<open>Modelled from the spec: the distinguished score \<open>+\<infinity>\<close>; \<open>-\<infinity>\<close> is its negation.\<close>

definition INFINITY :: int where "INFINITY = 1000000"

subsection \<open>Nodes, actions, colocations, resources\<close>

text \<open>
  A \<^verbatim>\<open>pe_node_t\<close> is a per-resource copy (own weight and count) that shares its
  \<^verbatim>\<open>details\<close> with every other copy of the same cluster node. The shared object is
  modelled by value; two copies have the same \<^verbatim>\<open>details\<close> pointer exactly when their
  details are equal. Node tables (\<^verbatim>\<open>GHashTable\<close> keyed by \<^verbatim>\<open>details->id\<close>) are lists of their
  values, read with \<open>lookup_node\<close>; a \<^verbatim>\<open>NULL\<close> table is \<open>None\<close>.
\<close>

record pe_node_shared =
  node_id :: string
  uname :: string

record pe_node =
  details :: pe_node_shared
  weight :: int
  count :: int

datatype rsc_variant = pe_unknown | pe_native | pe_group | pe_clone | pe_container

fun variant_num :: "rsc_variant \<Rightarrow> int" where
  "variant_num pe_unknown = -1"
| "variant_num pe_native = 0"
| "variant_num pe_group = 1"
| "variant_num pe_clone = 2"
| "variant_num pe_container = 3"

datatype rsc_role = RSC_ROLE_UNKNOWN | RSC_ROLE_STOPPED | RSC_ROLE_STARTED
  | RSC_ROLE_UNPROMOTED | RSC_ROLE_PROMOTED

datatype action_tasks = no_action | monitor_rsc | stop_rsc | stopped_rsc | start_rsc
  | started_rsc | action_notify | action_notified | action_promote | action_promoted
  | action_demote | action_demoted | shutdown_crm | stonith_node

type_synonym rsc_ptr = nat

record pe_action =
  uuid :: string
  task :: string
  action_flags :: "32 word"
  action_node :: "pe_node option"
  action_rsc :: "rsc_ptr option"

record pcmk__colocation =
  coloc_id :: string
  score :: int

record rsc_fields =
  rsc_id :: string
  variant :: rsc_variant
  flags :: "64 word"
  allowed_nodes :: "pe_node list option"
  running_on :: "pe_node list"
  allocated_to :: "pe_node option"
  actions :: "pe_action list"
  meta :: "(string \<times> string) list"
  rsc_cons :: "pcmk__colocation list"
  rsc_cons_lhs :: "pcmk__colocation list"

text \<open>
  A resource owns its children; the parent back-reference is not stored: functions that
  follow \<^verbatim>\<open>instance->parent\<close> take the parent as an argument. An action refers to its
  resource by address (\<open>rsc_ptr\<close>), resolved in a store.
\<close>

datatype pe_resource = Rsc (rsc: rsc_fields) (children: "pe_resource list")

type_synonym rsc_store = "rsc_ptr \<Rightarrow> pe_resource"

definition set_fields :: "(rsc_fields \<Rightarrow> rsc_fields) \<Rightarrow> pe_resource \<Rightarrow> pe_resource" where
  "set_fields f r = Rsc (f (rsc r)) (children r)"

subsection \<open>External collaborators\<close>

text \<open>
  The functions below are called by the file but defined elsewhere (method tables
  \<^verbatim>\<open>cmds\<close> and \<^verbatim>\<open>fns\<close>, and library helpers). They are parameters of the embedding.
\<close>

record externals =
  node_available :: "pe_node \<Rightarrow> bool \<Rightarrow> bool \<Rightarrow> bool"
  current_node :: "pe_resource \<Rightarrow> pe_node option"
  assign :: "pe_resource \<Rightarrow> pe_node option \<Rightarrow> pe_resource \<times> pe_node option"
  resource_location :: "pe_resource \<Rightarrow> pe_node option \<Rightarrow> int \<Rightarrow> string \<Rightarrow> pe_resource"
  add_this_with :: "pcmk__colocation list \<Rightarrow> pcmk__colocation \<Rightarrow> pcmk__colocation list"
  add_with_this :: "pcmk__colocation list \<Rightarrow> pcmk__colocation \<Rightarrow> pcmk__colocation list"
  colocation_has_influence :: "pcmk__colocation \<Rightarrow> pe_resource \<Rightarrow> bool"
  rsc_state :: "pe_resource \<Rightarrow> bool \<Rightarrow> rsc_role"
  rsc_location :: "pe_resource \<Rightarrow> bool \<Rightarrow> pe_node option"
  is_set_recursive :: "pe_resource \<Rightarrow> 64 word \<Rightarrow> bool \<Rightarrow> bool"
  sort_nodes :: "pe_node list \<Rightarrow> pe_node list"
  bundle_containers :: "pe_resource \<Rightarrow> pe_resource list"
  rsc_in_container :: "pe_resource \<Rightarrow> pe_resource option"
  assign_resource :: "pe_resource \<Rightarrow> pe_node option \<Rightarrow> bool \<Rightarrow> bool \<times> pe_resource"
  rsc_action_flags :: "pe_resource \<Rightarrow> pe_action \<Rightarrow> pe_node option \<Rightarrow> 32 word"
  parse_op_key :: "string \<Rightarrow> string option"
  get_complex_task :: "pe_resource \<Rightarrow> string \<Rightarrow> action_tasks"
  task2text :: "action_tasks \<Rightarrow> string"

section \<open>Node tables\<close>

fun lookup_node :: "pe_node list \<Rightarrow> string \<Rightarrow> pe_node option" where
  "lookup_node [] k = None"
| "lookup_node (n # ns) k = (if node_id (details n) = k then Some n else lookup_node ns k)"

text \<open>\<^verbatim>\<open>g_hash_table_lookup\<close>: a \<^verbatim>\<open>NULL\<close> table has no entry.\<close>

definition g_hash_table_lookup :: "pe_node list option \<Rightarrow> string \<Rightarrow> pe_node option" where
  "g_hash_table_lookup tbl k = (case tbl of None \<Rightarrow> None | Some ns \<Rightarrow> lookup_node ns k)"

text \<open>Update in place of the entry that a lookup of \<open>k\<close> returns.\<close>

fun update_node :: "(pe_node \<Rightarrow> pe_node) \<Rightarrow> string \<Rightarrow> pe_node list \<Rightarrow> pe_node list" where
  "update_node f k [] = []"
| "update_node f k (n # ns) =
     (if node_id (details n) = k then f n # ns else n # update_node f k ns)"

text \<open>
  Modelled from the spec: \<^verbatim>\<open>pcmk__node_available\<close> is the node's liveness predicate; a
  \<^verbatim>\<open>NULL\<close> node is not available.
\<close>

definition pcmk__node_available :: "externals \<Rightarrow> pe_node option \<Rightarrow> bool \<Rightarrow> bool \<Rightarrow> bool" where
  "pcmk__node_available ext node a b =
     (case node of None \<Rightarrow> False | Some n \<Rightarrow> node_available ext n a b)"

text \<open>
  Modelled from the spec: \<^verbatim>\<open>pcmk__top_allowed_node\<close> is the parent's view of the node,
  the entry of the parent's table under the node's id.
\<close>

definition pcmk__top_allowed_node :: "pe_resource \<Rightarrow> pe_node \<Rightarrow> pe_node option" where
  "pcmk__top_allowed_node parent node =
     g_hash_table_lookup (allowed_nodes (rsc parent)) (node_id (details node))"

section \<open>Eligibility filter\<close>

definition can_run_instance :: "externals \<Rightarrow> pe_resource \<Rightarrow> pe_resource \<Rightarrow> pe_node \<Rightarrow> int \<Rightarrow> bool" where
  "can_run_instance ext parent instance node max_per_node =
     (if pcmk_is_set (flags (rsc instance)) pe_rsc_orphan then False
      else if \<not> pcmk__node_available ext (Some node) False False then False
      else (case pcmk__top_allowed_node parent node of
              None \<Rightarrow> False
            | Some allowed_node \<Rightarrow>
                if weight allowed_node < 0 then False
                else if count allowed_node \<ge> max_per_node then False
                else True))"

section \<open>Instance assigner\<close>

text \<open>
  Modelled from the spec: score addition, in which \<open>-\<infinity>\<close> absorbs every score and
  \<open>+\<infinity>\<close> every other one, and \<^verbatim>\<open>common_update_score\<close>, which adds a score to the
  resource's entry for a node id and to the entries of all its children.
\<close>

definition pcmk__add_scores :: "int \<Rightarrow> int \<Rightarrow> int" where
  "pcmk__add_scores score1 score2 =
     (if score1 \<le> - INFINITY then - INFINITY
      else if score2 \<le> - INFINITY then - INFINITY
      else if score1 \<ge> INFINITY then INFINITY
      else if score2 \<ge> INFINITY then INFINITY
      else if score1 + score2 \<ge> INFINITY then INFINITY
      else if score1 + score2 \<le> - INFINITY then - INFINITY
      else score1 + score2)"

fun common_update_score :: "pe_resource \<Rightarrow> string \<Rightarrow> int \<Rightarrow> pe_resource" where
  "common_update_score (Rsc f cs) k s =
     Rsc (f\<lparr>allowed_nodes :=
              map_option (update_node (\<lambda>n. n\<lparr>weight := pcmk__add_scores (weight n) s\<rparr>) k)
                (allowed_nodes f)\<rparr>)
         (map (\<lambda>c. common_update_score c k s) cs)"

text \<open>
  The loop of \<^verbatim>\<open>ban_unavailable_allowed_nodes\<close> over the entries of the instance's table;
  the table is only changed in the weights of its entries while it is iterated.
\<close>

fun ban_loop :: "externals \<Rightarrow> pe_resource \<Rightarrow> int \<Rightarrow> pe_node list \<Rightarrow> pe_resource \<Rightarrow> pe_resource" where
  "ban_loop ext parent max_per_node [] instance = instance"
| "ban_loop ext parent max_per_node (allowed_node # rest) instance =
     ban_loop ext parent max_per_node rest
       (if \<not> can_run_instance ext parent instance allowed_node max_per_node
        then common_update_score instance (node_id (details allowed_node)) (- INFINITY)
        else instance)"

definition ban_unavailable_allowed_nodes ::
  "externals \<Rightarrow> pe_resource \<Rightarrow> pe_resource \<Rightarrow> int \<Rightarrow> pe_resource" where
  "ban_unavailable_allowed_nodes ext parent instance max_per_node =
     (case allowed_nodes (rsc instance) of
        None \<Rightarrow> instance
      | Some tbl \<Rightarrow> ban_loop ext parent max_per_node tbl instance)"

text \<open>\<^verbatim>\<open>pcmk__copy_node_table\<close> copies every entry; by value, the copy is the table.\<close>

definition pcmk__copy_node_table :: "pe_node list option \<Rightarrow> pe_node list option" where
  "pcmk__copy_node_table tbl = tbl"

text \<open>
  Modelled from the spec: \<^verbatim>\<open>pcmk__unassign_resource\<close> puts the resource back to
  provisional, with no chosen node.
\<close>

definition pcmk__unassign_resource :: "pe_resource \<Rightarrow> pe_resource" where
  "pcmk__unassign_resource r =
     set_fields (\<lambda>f. f\<lparr>flags := flags f OR pe_rsc_provisional, allocated_to := None\<rparr>) r"

text \<open>
  \<^verbatim>\<open>assign_instance\<close> returns its result together with the instance and the parent as
  it leaves them: the parent's entry for the chosen node has its count incremented.
\<close>

definition assign_instance ::
  "externals \<Rightarrow> pe_resource \<Rightarrow> pe_resource \<Rightarrow> pe_node option \<Rightarrow> bool \<Rightarrow> int
     \<Rightarrow> bool \<times> pe_resource \<times> pe_resource" where
  "assign_instance ext parent instance prefer all_coloc max_per_node =
     (if \<not> pcmk_is_set (flags (rsc instance)) pe_rsc_provisional
      then (rsc_location ext instance False \<noteq> None, instance, parent)
      else if pcmk_is_set (flags (rsc instance)) pe_rsc_allocating
      then (False, instance, parent)
      else if (case prefer of
                 None \<Rightarrow> False
               | Some p \<Rightarrow>
                   (case g_hash_table_lookup (allowed_nodes (rsc instance)) (node_id (details p)) of
                      None \<Rightarrow> True
                    | Some allowed \<Rightarrow> weight allowed < 0))
      then (False, instance, parent)
      else
        (let banned = ban_unavailable_allowed_nodes ext parent instance max_per_node;
             (instance', chosen) =
               (case prefer of
                  None \<Rightarrow> assign ext banned None
                | Some p \<Rightarrow>
                    (let backup = pcmk__copy_node_table (allowed_nodes (rsc banned));
                         (assigned, chosen) = assign ext banned (Some p)
                     in (case chosen of
                           None \<Rightarrow> (assigned, None)
                         | Some c \<Rightarrow>
                             if details c \<noteq> details p
                             then (pcmk__unassign_resource
                                     (set_fields (\<lambda>f. f\<lparr>allowed_nodes := backup\<rparr>) assigned),
                                   None)
                             else (assigned, Some c))))
         in (case chosen of
               None \<Rightarrow> (False, instance', parent)
             | Some c \<Rightarrow>
                 (case pcmk__top_allowed_node parent c of
                    None \<Rightarrow> (True, instance', parent)
                  | Some allowed \<Rightarrow>
                      (True, instance',
                       set_fields (\<lambda>f. f\<lparr>allowed_nodes :=
                           map_option (update_node (\<lambda>n. n\<lparr>count := count n + 1\<rparr>)
                                         (node_id (details c)))
                             (allowed_nodes f)\<rparr>) parent)))))"

section \<open>Colocation propagator\<close>




section \<open>Node-count tracker\<close>


section \<open>Collective assigner\<close>


text \<open>
  The optimal number of instances per node, as \<^verbatim>\<open>pcmk__assign_instances\<close> computes it:
  \<^verbatim>\<open>max_total / available_nodes\<close> is an unsigned division (the \<^verbatim>\<open>int\<close> is converted),
  whose result is stored in an \<^verbatim>\<open>int\<close>.
\<close>

definition optimal_per_node_init :: "int \<Rightarrow> 32 word \<Rightarrow> int" where
  "optimal_per_node_init max_total available_nodes =
     (let optimal_per_node =
            (if available_nodes > 0
             then sint ((word_of_int max_total :: 32 word) div available_nodes)
             else 0)
      in if optimal_per_node < 1 then 1 else optimal_per_node)"


text \<open>
  Second pass over all instances. The notice logged for an instance running on a node
  that is no longer allowed changes no state and is left out.
\<close>

fun assign_remaining_loop ::
  "externals \<Rightarrow> bool \<Rightarrow> int \<Rightarrow> int \<Rightarrow> pe_resource list \<Rightarrow> pe_resource \<Rightarrow> int
     \<Rightarrow> pe_resource list \<times> pe_resource \<times> int" where
  "assign_remaining_loop ext all_coloc max_total max_per_node [] collective assigned =
     ([], collective, assigned)"
| "assign_remaining_loop ext all_coloc max_total max_per_node (instance # rest)
       collective assigned =
     (if \<not> pcmk_is_set (flags (rsc instance)) pe_rsc_provisional then
        (let (rest', collective', assigned') =
               assign_remaining_loop ext all_coloc max_total max_per_node rest collective assigned
         in (instance # rest', collective', assigned'))
      else if assigned \<ge> max_total then
        (let (rest', collective', assigned') =
               assign_remaining_loop ext all_coloc max_total max_per_node rest collective assigned
         in (resource_location ext instance None (- INFINITY) ''collective_limit_reached'' # rest',
             collective', assigned'))
      else
        (let (ok, instance2, collective2) =
               assign_instance ext collective instance None all_coloc max_per_node;
             (rest', collective', assigned') =
               assign_remaining_loop ext all_coloc max_total max_per_node rest collective2
                 (if ok then assigned + 1 else assigned)
         in (instance2 # rest', collective', assigned')))"


section \<open>Instance-state summarizer\<close>

definition instance_starting :: "32 word" where "instance_starting = push_bit 0 1"
definition instance_stopping :: "32 word" where "instance_stopping = push_bit 1 1"
definition instance_restarting :: "32 word" where "instance_restarting = push_bit 2 1"
definition instance_active :: "32 word" where "instance_active = push_bit 3 1"
definition instance_all :: "32 word" where
  "instance_all = instance_starting OR instance_stopping OR instance_restarting OR instance_active"

definition RSC_START :: string where "RSC_START = ''start''"
definition RSC_STOP :: string where "RSC_STOP = ''stop''"

text \<open>The loop of \<^verbatim>\<open>check_instance_state\<close> over the actions of a primitive.\<close>

fun check_actions_loop :: "pe_action list \<Rightarrow> 32 word \<Rightarrow> 32 word" where
  "check_actions_loop [] instance_state = instance_state"
| "check_actions_loop (action # rest) instance_state =
     (if pcmk_all_flags_set instance_state (instance_starting OR instance_stopping)
      then instance_state
      else
        (let optional = pcmk_is_set (action_flags action) pe_action_optional
         in check_actions_loop rest
              (if RSC_START = task action then
                 (if \<not> optional \<and> pcmk_is_set (action_flags action) pe_action_runnable
                  then instance_state OR instance_starting
                  else instance_state)
               else if RSC_STOP = task action then
                 (if \<not> optional
                     \<and> pcmk_any_flags_set (action_flags action)
                           (pe_action_pseudo OR pe_action_runnable)
                  then instance_state OR instance_stopping
                  else instance_state)
               else instance_state)))"

fun check_instance_state :: "pe_resource \<Rightarrow> 32 word \<Rightarrow> 32 word"
  and check_children_loop :: "pe_resource list \<Rightarrow> 32 word \<Rightarrow> 32 word" where
  "check_instance_state (Rsc f cs) state =
     (if pcmk_all_flags_set state instance_all then state
      else if variant_num (variant f) > variant_num pe_native then check_children_loop cs state
      else
        (let instance_state0 = (if running_on f \<noteq> [] then 0 OR instance_active else 0);
             instance_state1 = check_actions_loop (actions f) instance_state0;
             instance_state2 =
               (if pcmk_all_flags_set instance_state1 (instance_starting OR instance_stopping)
                then instance_state1 OR instance_restarting
                else instance_state1)
         in state OR instance_state2))"
| "check_children_loop [] state = state"
| "check_children_loop (c # cs) state =
     (if pcmk_all_flags_set state instance_all then state
      else check_children_loop cs (check_instance_state c state))"

section \<open>Compatibility matcher\<close>

definition get_instance_list :: "externals \<Rightarrow> pe_resource \<Rightarrow> pe_resource list" where
  "get_instance_list ext r =
     (if variant (rsc r) = pe_container then bundle_containers ext r else children r)"

text \<open>A \<^verbatim>\<open>NULL\<close> instance or node is \<open>None\<close>; \<^verbatim>\<open>CRM_CHECK\<close> logs and returns \<^verbatim>\<open>false\<close>.\<close>

definition pcmk__instance_matches ::
  "externals \<Rightarrow> pe_resource option \<Rightarrow> pe_node option \<Rightarrow> rsc_role \<Rightarrow> bool \<Rightarrow> bool" where
  "pcmk__instance_matches ext instance node role current =
     (case instance of
        None \<Rightarrow> False
      | Some i \<Rightarrow>
          (case node of
             None \<Rightarrow> False
           | Some n \<Rightarrow>
               if role \<noteq> RSC_ROLE_UNKNOWN \<and> role \<noteq> rsc_state ext i current then False
               else
                 (let instance_node =
                        (if \<not> is_set_recursive ext i pe_rsc_block True
                         then rsc_location ext i current
                         else None)
                  in (case instance_node of
                        None \<Rightarrow> False
                      | Some l \<Rightarrow> if details l \<noteq> details n then False else True))))"

fun find_matching_instance ::
  "externals \<Rightarrow> pe_node \<Rightarrow> rsc_role \<Rightarrow> bool \<Rightarrow> pe_resource list \<Rightarrow> pe_resource option" where
  "find_matching_instance ext node role current [] = None"
| "find_matching_instance ext node role current (instance # rest) =
     (if pcmk__instance_matches ext (Some instance) (Some node) role current
      then Some instance
      else find_matching_instance ext node role current rest)"

definition find_compatible_instance_on_node ::
  "externals \<Rightarrow> pe_resource \<Rightarrow> pe_resource \<Rightarrow> pe_node \<Rightarrow> rsc_role \<Rightarrow> bool
     \<Rightarrow> pe_resource option" where
  "find_compatible_instance_on_node ext match_rsc r node role current =
     find_matching_instance ext node role current (get_instance_list ext r)"

fun find_on_nodes ::
  "externals \<Rightarrow> pe_resource \<Rightarrow> pe_resource \<Rightarrow> rsc_role \<Rightarrow> bool \<Rightarrow> pe_node list
     \<Rightarrow> pe_resource option" where
  "find_on_nodes ext match_rsc r role current [] = None"
| "find_on_nodes ext match_rsc r role current (node # rest) =
     (case find_compatible_instance_on_node ext match_rsc r node role current of
        Some instance \<Rightarrow> Some instance
      | None \<Rightarrow> find_on_nodes ext match_rsc r role current rest)"

definition pcmk__find_compatible_instance ::
  "externals \<Rightarrow> pe_resource \<Rightarrow> pe_resource \<Rightarrow> rsc_role \<Rightarrow> bool \<Rightarrow> pe_resource option" where
  "pcmk__find_compatible_instance ext match_rsc r role current =
     (case rsc_location ext match_rsc current of
        Some node \<Rightarrow> find_compatible_instance_on_node ext match_rsc r node role current
      | None \<Rightarrow>
          find_on_nodes ext match_rsc r role current
            (sort_nodes ext (case allowed_nodes (rsc match_rsc) of None \<Rightarrow> [] | Some tbl \<Rightarrow> tbl)))"

section \<open>Interleave updater\<close>

text \<open>
  Modelled from the spec: the ordering kinds \<open>runnable_left\<close> and \<open>implies_then\<close> are
  single bits of the ordering flag word.
\<close>

definition pe_order_implies_then :: "32 word" where "pe_order_implies_then = 0x20"
definition pe_order_runnable_left :: "32 word" where "pe_order_runnable_left = 0x100"

text \<open>Modelled from the spec: \<^verbatim>\<open>pcmk__ends_with\<close>, whether a string ends with a suffix.\<close>

definition pcmk__ends_with :: "string \<Rightarrow> string \<Rightarrow> bool" where
  "pcmk__ends_with s match =
     (match = [] \<or> (length match \<le> length s \<and> drop (length s - length match) s = match))"

definition unassign_if_mandatory ::
  "externals \<Rightarrow> pe_action \<Rightarrow> pe_action \<Rightarrow> pe_resource \<Rightarrow> 32 word \<Rightarrow> bool
     \<Rightarrow> bool \<times> pe_resource" where
  "unassign_if_mandatory ext first thn then_instance type current =
     (if current then (False, then_instance)
      else if pcmk_any_flags_set type (pe_order_runnable_left OR pe_order_implies_then)
      then assign_resource ext then_instance None True
      else (False, then_instance))"

text \<open>
  The local \<^verbatim>\<open>current\<close> of \<^verbatim>\<open>update_interleaved_actions\<close>, computed once before the loop
  over the "then" instances.
\<close>

definition interleave_current :: "pe_action \<Rightarrow> pe_action \<Rightarrow> bool" where
  "interleave_current first thn =
     (pcmk__ends_with (uuid first) ''_stopped_0'' \<or> pcmk__ends_with (uuid first) ''_demoted_0'')"

text \<open>
  The head of the loop body of \<^verbatim>\<open>update_interleaved_actions\<close> for one "then" instance:
  the search for a "first" instance to interleave with and, when there is none, the call
  of \<^verbatim>\<open>unassign_if_mandatory\<close>, whose result decides whether \<^verbatim>\<open>pcmk__updated_then\<close> is set.
  The rest of the body (looking up and ordering the two instance actions) runs only in
  the second case and is outside the embedding.
\<close>

datatype interleave_match = No_first_instance bool pe_resource | First_instance pe_resource

definition interleave_then_instance ::
  "externals \<Rightarrow> pe_action \<Rightarrow> pe_resource \<Rightarrow> pe_action \<Rightarrow> pe_resource \<Rightarrow> 32 word
     \<Rightarrow> interleave_match" where
  "interleave_then_instance ext first first_rsc thn then_instance type =
     (let current = interleave_current first thn
      in (case pcmk__find_compatible_instance ext then_instance first_rsc RSC_ROLE_UNKNOWN current of
            None \<Rightarrow>
              (let (unassigned, then_instance') =
                     unassign_if_mandatory ext first thn then_instance type current
               in No_first_instance unassigned then_instance')
          | Some first_instance \<Rightarrow> First_instance first_instance))"

text \<open>
  Modelled from the spec: \<^verbatim>\<open>crm_is_true\<close> reads a boolean attribute value: an absent value
  is false, and \<open>true\<close>, \<open>on\<close>, \<open>yes\<close>, \<open>y\<close> and \<open>1\<close> are true in any letter case.
\<close>

definition ascii_tolower :: "char \<Rightarrow> char" where
  "ascii_tolower c =
     (let n = (of_char c :: nat) in if 65 \<le> n \<and> n \<le> 90 then char_of (n + 32) else c)"

definition crm_is_true :: "string option \<Rightarrow> bool" where
  "crm_is_true s =
     (case s of
        None \<Rightarrow> False
      | Some v \<Rightarrow> map ascii_tolower v \<in> set [''true'', ''on'', ''yes'', ''y'', ''1''])"

definition XML_RSC_ATTR_INTERLEAVE :: string where "XML_RSC_ATTR_INTERLEAVE = ''interleave''"

text \<open>
  The resources of the two actions are compared by address; \<open>None\<close> is an action
  without a resource.
\<close>

definition can_interleave_actions :: "rsc_store \<Rightarrow> pe_action \<Rightarrow> pe_action \<Rightarrow> bool" where
  "can_interleave_actions store first thn =
     (case action_rsc first of
        None \<Rightarrow> False
      | Some first_rsc \<Rightarrow>
          (case action_rsc thn of
             None \<Rightarrow> False
           | Some then_rsc \<Rightarrow>
               if first_rsc = then_rsc then False
               else if variant_num (variant (rsc (store first_rsc))) < variant_num pe_clone
                       \<or> variant_num (variant (rsc (store then_rsc))) < variant_num pe_clone
               then False
               else
                 (let r = (if pcmk__ends_with (uuid thn) ''_stop_0''
                              \<or> pcmk__ends_with (uuid thn) ''_demote_0''
                           then first_rsc else then_rsc)
                  in crm_is_true (map_of (meta (rsc (store r))) XML_RSC_ATTR_INTERLEAVE))))"

section \<open>Collective action-flag folder\<close>

text \<open>
  Modelled from the spec: \<^verbatim>\<open>find_first_action\<close> with no uuid given returns the first
  action of the list with the given task that is on the given node, or on any node when
  no node is given.
\<close>

fun find_first_action :: "pe_action list \<Rightarrow> string \<Rightarrow> pe_node option \<Rightarrow> pe_action option" where
  "find_first_action [] task_name on_node = None"
| "find_first_action (action # rest) task_name on_node =
     (if task_name \<noteq> task action then find_first_action rest task_name on_node
      else
        (case on_node of
           None \<Rightarrow> Some action
         | Some n \<Rightarrow>
             (case action_node action of
                None \<Rightarrow> find_first_action rest task_name on_node
              | Some an \<Rightarrow>
                  if details n = details an then Some action
                  else find_first_action rest task_name on_node)))"

text \<open>\<^verbatim>\<open>strstr\<close>: the rest of the string from the first occurrence of the needle.\<close>

fun strstr :: "string \<Rightarrow> string \<Rightarrow> string option" where
  "strstr [] needle = (if needle = [] then Some [] else None)"
| "strstr (c # cs) needle =
     (if take (length needle) (c # cs) = needle then Some (c # cs) else strstr cs needle)"

definition pcmk__strcase_any_of :: "string \<Rightarrow> string list \<Rightarrow> bool" where
  "pcmk__strcase_any_of s names = (map ascii_tolower s \<in> set (map (map ascii_tolower) names))"

definition CRMD_ACTION_NOTIFY :: string where "CRMD_ACTION_NOTIFY = ''notify''"
definition CRMD_ACTION_NOTIFIED :: string where "CRMD_ACTION_NOTIFIED = ''notified''"

text \<open>
  \<^verbatim>\<open>orig_action_name\<close> reads \<^verbatim>\<open>action->rsc->children->data\<close> unchecked: an action without
  a resource, or whose resource has no child, is undefined behaviour, \<open>None\<close> here.
\<close>

definition orig_action_name :: "externals \<Rightarrow> rsc_store \<Rightarrow> pe_action \<Rightarrow> string option" where
  "orig_action_name ext store action =
     (case action_rsc action of
        None \<Rightarrow> None
      | Some p \<Rightarrow>
          (case children (store p) of
             [] \<Rightarrow> None
           | instance # _ \<Rightarrow>
               if pcmk__strcase_any_of (task action) [CRMD_ACTION_NOTIFY, CRMD_ACTION_NOTIFIED]
               then
                 (case parse_op_key ext (uuid action) of
                    None \<Rightarrow> Some (task2text ext no_action)
                  | Some action_type \<Rightarrow>
                      (case strstr action_type ''_notify_'' of
                         None \<Rightarrow> Some (task2text ext no_action)
                       | Some found \<Rightarrow>
                           Some (task2text ext
                                   (get_complex_task ext instance
                                      (drop (length ''_notify_'') found)))))
               else Some (task2text ext (get_complex_task ext instance (task action)))))"

text \<open>
  The loop of \<^verbatim>\<open>pcmk__collective_action_flags\<close>; its state is the summary \<^verbatim>\<open>flags\<close>, the
  collective action (whose own flags the loop may clear) and \<^verbatim>\<open>any_runnable\<close>.
\<close>

fun collective_flags_loop ::
  "externals \<Rightarrow> string \<Rightarrow> pe_node option \<Rightarrow> pe_resource list \<Rightarrow> 32 word \<times> pe_action \<times> bool
     \<Rightarrow> 32 word \<times> pe_action \<times> bool" where
  "collective_flags_loop ext action_name node [] st = st"
| "collective_flags_loop ext action_name node (instance # rest) (flgs, action, any_runnable) =
     (let instance_node = (if variant (rsc instance) = pe_native then node else None)
      in (case find_first_action (actions (rsc instance)) action_name instance_node of
            None \<Rightarrow> collective_flags_loop ext action_name node rest (flgs, action, any_runnable)
          | Some instance_action \<Rightarrow>
              (let instance_flags = rsc_action_flags ext instance instance_action node;
                   (flgs', action') =
                     (if pcmk_is_set flgs pe_action_optional
                         \<and> \<not> pcmk_is_set instance_flags pe_action_optional
                      then (flgs AND NOT pe_action_optional,
                            action\<lparr>action_flags := action_flags action AND NOT pe_action_optional\<rparr>)
                      else (flgs, action))
               in collective_flags_loop ext action_name node rest
                    (flgs', action',
                     (if pcmk_is_set instance_flags pe_action_runnable then True
                      else any_runnable)))))"

text \<open>
  \<^verbatim>\<open>pcmk__collective_action_flags\<close> returns the summary flags; the embedding also returns
  the collective action as the call leaves it.
\<close>

definition pcmk__collective_action_flags ::
  "externals \<Rightarrow> rsc_store \<Rightarrow> pe_action \<Rightarrow> pe_resource list \<Rightarrow> pe_node option
     \<Rightarrow> (32 word \<times> pe_action) option" where
  "pcmk__collective_action_flags ext store action instances node =
     (case orig_action_name ext store action of
        None \<Rightarrow> None
      | Some action_name \<Rightarrow>
          (let (flgs, action1, any_runnable) =
                 collective_flags_loop ext action_name node instances
                   (pe_action_optional OR pe_action_runnable OR pe_action_pseudo, action, False)
           in if \<not> any_runnable
              then Some (flgs AND NOT pe_action_runnable,
                         (if node = None
                          then action1\<lparr>action_flags := action_flags action1 AND NOT pe_action_runnable\<rparr>
                          else action1))
              else Some (flgs, action1)))"

section \<open>A small cluster for concrete evaluation\<close>

text \<open>
  Two nodes, and simple stand-ins for the external collaborators: every node is
  available unless its score is asked for and negative; \<open>demo_assign\<close> takes the preferred
  node when the instance's table gives it a non-negative score, otherwise the first
  node with a non-negative score, and records the choice on the instance.
\<close>

definition demo_node1 :: pe_node where
  "demo_node1 = \<lparr>details = \<lparr>node_id = ''n1'', uname = ''node1''\<rparr>, weight = 0, count = 0\<rparr>"

definition demo_node2 :: pe_node where
  "demo_node2 = \<lparr>details = \<lparr>node_id = ''n2'', uname = ''node2''\<rparr>, weight = 0, count = 0\<rparr>"

definition demo_best :: "pe_node list \<Rightarrow> pe_node option" where
  "demo_best tbl =
     find (\<lambda>n. case lookup_node tbl (node_id (details n)) of
                  None \<Rightarrow> False | Some a \<Rightarrow> 0 \<le> weight a) tbl"

definition demo_assign :: "pe_resource \<Rightarrow> pe_node option \<Rightarrow> pe_resource \<times> pe_node option" where
  "demo_assign r prefer =
     (let tbl = (case allowed_nodes (rsc r) of None \<Rightarrow> [] | Some t \<Rightarrow> t);
          best =
            (case prefer of
               None \<Rightarrow> demo_best tbl
             | Some p \<Rightarrow>
                 (case lookup_node tbl (node_id (details p)) of
                    None \<Rightarrow> demo_best tbl
                  | Some a \<Rightarrow> if 0 \<le> weight a then Some a else demo_best tbl))
      in (set_fields (\<lambda>f. f\<lparr>flags := flags f AND NOT pe_rsc_provisional, allocated_to := best\<rparr>) r,
          best))"

definition demo_resource_location :: "pe_resource \<Rightarrow> pe_node option \<Rightarrow> int \<Rightarrow> string \<Rightarrow> pe_resource" where
  "demo_resource_location r n s tag =
     set_fields (\<lambda>f. f\<lparr>allowed_nodes :=
        map_option (map (\<lambda>x. x\<lparr>weight := pcmk__add_scores (weight x) s\<rparr>)) (allowed_nodes f)\<rparr>) r"

definition demo_task :: "string \<Rightarrow> action_tasks" where
  "demo_task s = (if s = ''start'' \<or> s = ''started'' then start_rsc
                  else if s = ''stop'' \<or> s = ''stopped'' then stop_rsc else no_action)"

definition demo_text :: "action_tasks \<Rightarrow> string" where
  "demo_text t = (if t = start_rsc then ''start'' else if t = stop_rsc then ''stop'' else ''no_action'')"

definition demo_ext :: externals where
  "demo_ext =
     \<lparr>node_available = (\<lambda>n consider_score consider_guest. \<not> consider_score \<or> 0 \<le> weight n),
      current_node = (\<lambda>r. case running_on (rsc r) of [] \<Rightarrow> None | n # _ \<Rightarrow> Some n),
      assign = demo_assign,
      resource_location = demo_resource_location,
      add_this_with = (\<lambda>l c. l @ [c]),
      add_with_this = (\<lambda>l c. l @ [c]),
      colocation_has_influence = (\<lambda>c r. True),
      rsc_state = (\<lambda>r current. RSC_ROLE_STARTED),
      rsc_location = (\<lambda>r current. if current
                        then (case running_on (rsc r) of [] \<Rightarrow> None | n # _ \<Rightarrow> Some n)
                        else allocated_to (rsc r)),
      is_set_recursive = (\<lambda>r f any. pcmk_is_set (flags (rsc r)) f),
      sort_nodes = (\<lambda>ns. ns),
      bundle_containers = children,
      rsc_in_container = (\<lambda>r. None),
      assign_resource = (\<lambda>r n force. (True, set_fields (\<lambda>f. f\<lparr>allocated_to := n\<rparr>) r)),
      rsc_action_flags = (\<lambda>r a n. action_flags a),
      parse_op_key = (\<lambda>s. None),
      get_complex_task = (\<lambda>r s. demo_task s),
      task2text = demo_text\<rparr>"

definition demo_fields :: rsc_fields where
  "demo_fields =
     \<lparr>rsc_id = ''rsc'', variant = pe_native, flags = pe_rsc_provisional OR pe_rsc_managed,
      allowed_nodes = Some [demo_node1, demo_node2], running_on = [], allocated_to = None,
      actions = [], meta = [], rsc_cons = [], rsc_cons_lhs = []\<rparr>"

definition demo_instance :: "string \<Rightarrow> pe_node list \<Rightarrow> pe_resource" where
  "demo_instance name running = Rsc (demo_fields\<lparr>rsc_id := name, running_on := running\<rparr>) []"

definition demo_collective :: pe_resource where
  "demo_collective =
     Rsc (demo_fields\<lparr>rsc_id := ''clone'', variant := pe_clone,
                      meta := [(''interleave'', ''true'')]\<rparr>)
         [demo_instance ''rsc:0'' [], demo_instance ''rsc:1'' []]"

definition demo_action :: "string \<Rightarrow> string \<Rightarrow> 32 word \<Rightarrow> rsc_ptr option \<Rightarrow> pe_action" where
  "demo_action u t f r =
     \<lparr>uuid = u, task = t, action_flags = f, action_node = None, action_rsc = r\<rparr>"

text \<open>A store with two clones: address 1 holds the first, every other address the second.\<close>

definition demo_store :: rsc_store where
  "demo_store p =
     (if p = 1 then demo_collective
      else Rsc (demo_fields\<lparr>rsc_id := ''other'', variant := pe_clone\<rparr>) [])"

text \<open>
  A cloned group whose first member has a mandatory runnable start and whose second
  member has a mandatory runnable stop, and a primitive that has both.
\<close>

definition demo_primitive :: "string \<Rightarrow> pe_action list \<Rightarrow> pe_resource" where
  "demo_primitive name acts = Rsc (demo_fields\<lparr>rsc_id := name, actions := acts\<rparr>) []"

definition demo_group :: pe_resource where
  "demo_group =
     Rsc (demo_fields\<lparr>rsc_id := ''grp:0'', variant := pe_group\<rparr>)
       [demo_primitive ''a:0'' [demo_action ''a_start_0'' ''start'' pe_action_runnable None],
        demo_primitive ''b:0'' [demo_action ''b_stop_0'' ''stop'' pe_action_runnable None]]"

definition demo_restarting :: pe_resource where
  "demo_restarting =
     demo_primitive ''c:0''
       [demo_action ''c_stop_0'' ''stop'' pe_action_runnable None,
        demo_action ''c_monitor_10000'' ''monitor'' (pe_action_runnable OR pe_action_optional) None,
        demo_action ''c_start_0'' ''start'' pe_action_runnable None]"

text \<open>
  The start action of the clone at address 1, and two instances with a start action:
  the first optional and runnable, the second mandatory and runnable.
\<close>

definition demo_clone_start :: pe_action where
  "demo_clone_start =
     demo_action ''clone_start_0'' ''start''
       (pe_action_optional OR pe_action_runnable OR pe_action_pseudo) (Some 1)"

definition demo_start_instances :: "pe_resource list" where
  "demo_start_instances =
     [demo_primitive ''rsc:0''
        [demo_action ''rsc:0_start_0'' ''start'' (pe_action_runnable OR pe_action_optional) None],
      demo_primitive ''rsc:1''
        [demo_action ''rsc:1_monitor_0'' ''monitor'' pe_action_runnable None],
      demo_primitive ''rsc:2''
        [demo_action ''rsc:2_start_0'' ''start'' pe_action_runnable None]]"

text \<open>Three instances of the clone, none of them running or assigned.\<close>

definition demo_instances :: "pe_resource list" where
  "demo_instances = [demo_instance ''rsc:0'' [], demo_instance ''rsc:1'' [], demo_instance ''rsc:2'' []]"

text \<open>The clone when its first node already has one instance.\<close>

definition demo_collective_one :: pe_resource where
  "demo_collective_one =
     set_fields (\<lambda>f. f\<lparr>allowed_nodes := Some [demo_node1\<lparr>count := 1\<rparr>, demo_node2]\<rparr>)
       demo_collective"








section \<open>Vocabulary of the properties\<close>

text \<open>
  An instance is starting when it has a start action that is not optional and is
  runnable, and stopping when it has a stop action that is not optional and is runnable
  or pseudo. The primitives of an instance are the resources whose actions
  \<^verbatim>\<open>check_instance_state\<close> reads: the instance itself, or the leaves below a collective
  instance.
\<close>

definition is_starting :: "pe_resource \<Rightarrow> bool" where
  "is_starting r =
     (\<exists>a \<in> set (actions (rsc r)). task a = ''start''
         \<and> \<not> pcmk_is_set (action_flags a) pe_action_optional
         \<and> pcmk_is_set (action_flags a) pe_action_runnable)"

definition is_stopping :: "pe_resource \<Rightarrow> bool" where
  "is_stopping r =
     (\<exists>a \<in> set (actions (rsc r)). task a = ''stop''
         \<and> \<not> pcmk_is_set (action_flags a) pe_action_optional
         \<and> (pcmk_is_set (action_flags a) pe_action_runnable
              \<or> pcmk_is_set (action_flags a) pe_action_pseudo))"

fun primitives :: "pe_resource \<Rightarrow> pe_resource list" where
  "primitives (Rsc f cs) =
     (if variant_num (variant f) > variant_num pe_native
      then concat (map primitives cs) else [Rsc f cs])"

text \<open>
  The flags of the instance actions that \<^verbatim>\<open>pcmk__collective_action_flags\<close> folds: for each
  instance that has an action of the given name (on the given node, for a primitive),
  the flags its variant reports for that action; instances without one are skipped.
\<close>

fun present_action_flags ::
  "externals \<Rightarrow> string \<Rightarrow> pe_node option \<Rightarrow> pe_resource list \<Rightarrow> 32 word list" where
  "present_action_flags ext action_name node [] = []"
| "present_action_flags ext action_name node (instance # rest) =
     (case find_first_action (actions (rsc instance)) action_name
             (if variant (rsc instance) = pe_native then node else None) of
        None \<Rightarrow> present_action_flags ext action_name node rest
      | Some instance_action \<Rightarrow>
          rsc_action_flags ext instance instance_action node
            # present_action_flags ext action_name node rest)"











text \<open>The parent after \<^verbatim>\<open>assign_instance\<close> has counted an assignment to a node.\<close>

definition count_assignment :: "pe_resource \<Rightarrow> pe_node \<Rightarrow> pe_resource" where
  "count_assignment parent c =
     (case pcmk__top_allowed_node parent c of
        None \<Rightarrow> parent
      | Some allowed \<Rightarrow>
          set_fields (\<lambda>f. f\<lparr>allowed_nodes :=
              map_option (update_node (\<lambda>n. n\<lparr>count := count n + 1\<rparr>) (node_id (details c)))
                (allowed_nodes f)\<rparr>) parent)"


section \<open>Properties\<close>

subsection \<open>Flag groups\<close>

lemma all_set_exp:
  "k < LENGTH('a::len) \<Longrightarrow> pcmk_all_flags_set (w::'a word) (2 ^ k) \<longleftrightarrow> bit w k"
  unfolding pcmk_all_flags_set_def
  by (auto simp: bit_eq_iff[where ?'a = "'a word"] bit_and_iff bit_exp_iff)

lemma all_set_or:
  "pcmk_all_flags_set (w::'a::len word) (a OR b) \<longleftrightarrow> pcmk_all_flags_set w a \<and> pcmk_all_flags_set w b"
  unfolding pcmk_all_flags_set_def
  by (auto simp: bit_eq_iff bit_and_iff bit_or_iff)

lemma any_set_exp:
  "pcmk_any_flags_set (w::'a::len word) (2 ^ k) \<longleftrightarrow> bit w k"
  unfolding pcmk_any_flags_set_def by (simp add: and_exp_eq_0_iff_not_bit)

lemma any_set_or:
  "pcmk_any_flags_set (w::'a::len word) (a OR b) \<longleftrightarrow> pcmk_any_flags_set w a \<or> pcmk_any_flags_set w b"
  unfolding pcmk_any_flags_set_def
  by (auto simp: bit_eq_iff bit_and_iff bit_or_iff)

lemma state_bits:
  "instance_starting = 2 ^ 0" "instance_stopping = 2 ^ 1"
  "instance_restarting = 2 ^ 2" "instance_active = 2 ^ 3"
  by (simp_all add: instance_starting_def instance_stopping_def instance_restarting_def
        instance_active_def)

lemma action_bits:
  "pe_action_pseudo = 2 ^ 0" "pe_action_runnable = 2 ^ 1" "pe_action_optional = 2 ^ 2"
  by (simp_all add: pe_action_pseudo_def pe_action_runnable_def pe_action_optional_def)

lemma is_set_state:
  "pcmk_is_set (w::32 word) instance_starting \<longleftrightarrow> bit w 0"
  "pcmk_is_set (w::32 word) instance_stopping \<longleftrightarrow> bit w 1"
  "pcmk_is_set (w::32 word) instance_restarting \<longleftrightarrow> bit w 2"
  "pcmk_is_set (w::32 word) instance_active \<longleftrightarrow> bit w 3"
  unfolding pcmk_is_set_def state_bits by (rule all_set_exp, simp)+

lemma is_set_action:
  "pcmk_is_set (w::32 word) pe_action_pseudo \<longleftrightarrow> bit w 0"
  "pcmk_is_set (w::32 word) pe_action_runnable \<longleftrightarrow> bit w 1"
  "pcmk_is_set (w::32 word) pe_action_optional \<longleftrightarrow> bit w 2"
  unfolding pcmk_is_set_def action_bits by (rule all_set_exp, simp)+

lemma any_pseudo_runnable:
  "pcmk_any_flags_set (w::32 word) (pe_action_pseudo OR pe_action_runnable) \<longleftrightarrow> bit w 0 \<or> bit w 1"
  unfolding any_set_or action_bits any_set_exp by (rule refl)

lemma all_starting_stopping:
  "pcmk_all_flags_set (w::32 word) (instance_starting OR instance_stopping) \<longleftrightarrow> bit w 0 \<and> bit w 1"
  using is_set_state[of w] unfolding all_set_or pcmk_is_set_def by simp

lemma all_instance_all:
  "pcmk_all_flags_set (w::32 word) instance_all \<longleftrightarrow> bit w 0 \<and> bit w 1 \<and> bit w 2 \<and> bit w 3"
  using is_set_state[of w] unfolding instance_all_def all_set_or pcmk_is_set_def by simp

lemma bit_state_consts:
  "bit instance_starting n \<longleftrightarrow> n = 0" "bit instance_stopping n \<longleftrightarrow> n = 1"
  "bit instance_restarting n \<longleftrightarrow> n = 2" "bit instance_active n \<longleftrightarrow> n = 3"
  unfolding state_bits bit_exp_iff possible_bit_word by auto

lemma is_set_or_exp:
  "k < LENGTH('a::len) \<Longrightarrow>
     pcmk_is_set ((a::'a word) OR b) (2 ^ k) \<longleftrightarrow> pcmk_is_set a (2 ^ k) \<or> pcmk_is_set b (2 ^ k)"
  unfolding pcmk_is_set_def by (simp only: all_set_exp bit_or_iff)

lemma is_set_exp_exp:
  "j < LENGTH('a::len) \<Longrightarrow> k < LENGTH('a) \<Longrightarrow>
     pcmk_is_set ((2 ^ j)::'a word) (2 ^ k) \<longleftrightarrow> j = k"
  unfolding pcmk_is_set_def by (simp only: all_set_exp bit_exp_iff possible_bit_word) auto

lemma is_set_zero_exp:
  "k < LENGTH('a::len) \<Longrightarrow> \<not> pcmk_is_set (0::'a word) (2 ^ k)"
  unfolding pcmk_is_set_def by (simp only: all_set_exp bit_0_eq) simp

lemma is_set_and_not_exp:
  "j < LENGTH('a::len) \<Longrightarrow> k < LENGTH('a) \<Longrightarrow>
     pcmk_is_set ((a::'a word) AND NOT (2 ^ j)) (2 ^ k) \<longleftrightarrow> pcmk_is_set a (2 ^ k) \<and> j \<noteq> k"
  unfolding pcmk_is_set_def
  by (simp only: all_set_exp bit_and_iff bit_not_iff bit_exp_iff possible_bit_word) auto

lemma state_or:
  "pcmk_is_set ((a::32 word) OR b) instance_starting \<longleftrightarrow>
     pcmk_is_set a instance_starting \<or> pcmk_is_set b instance_starting"
  "pcmk_is_set ((a::32 word) OR b) instance_stopping \<longleftrightarrow>
     pcmk_is_set a instance_stopping \<or> pcmk_is_set b instance_stopping"
  "pcmk_is_set ((a::32 word) OR b) instance_restarting \<longleftrightarrow>
     pcmk_is_set a instance_restarting \<or> pcmk_is_set b instance_restarting"
  "pcmk_is_set ((a::32 word) OR b) instance_active \<longleftrightarrow>
     pcmk_is_set a instance_active \<or> pcmk_is_set b instance_active"
  unfolding state_bits by (rule is_set_or_exp, simp)+

lemma state_consts:
  "pcmk_is_set instance_starting instance_starting"
  "\<not> pcmk_is_set instance_starting instance_stopping"
  "\<not> pcmk_is_set instance_starting instance_restarting"
  "\<not> pcmk_is_set instance_stopping instance_starting"
  "pcmk_is_set instance_stopping instance_stopping"
  "\<not> pcmk_is_set instance_stopping instance_restarting"
  "\<not> pcmk_is_set instance_restarting instance_starting"
  "\<not> pcmk_is_set instance_restarting instance_stopping"
  "pcmk_is_set instance_restarting instance_restarting"
  "\<not> pcmk_is_set instance_active instance_starting"
  "\<not> pcmk_is_set instance_active instance_stopping"
  "\<not> pcmk_is_set instance_active instance_restarting"
  "\<not> pcmk_is_set (0::32 word) instance_starting"
  "\<not> pcmk_is_set (0::32 word) instance_stopping"
  "\<not> pcmk_is_set (0::32 word) instance_restarting"
  unfolding state_bits by (simp_all only: is_set_exp_exp is_set_zero_exp len_bit0 len_num1) simp_all

lemma all_set_state:
  "pcmk_all_flags_set (w::32 word) (instance_starting OR instance_stopping) \<longleftrightarrow>
     pcmk_is_set w instance_starting \<and> pcmk_is_set w instance_stopping"
  "pcmk_all_flags_set (w::32 word) instance_all \<longleftrightarrow>
     pcmk_is_set w instance_starting \<and> pcmk_is_set w instance_stopping
     \<and> pcmk_is_set w instance_restarting \<and> pcmk_is_set w instance_active"
  unfolding instance_all_def all_set_or pcmk_is_set_def by simp_all

lemma any_pseudo_runnable_is_set:
  "pcmk_any_flags_set (w::32 word) (pe_action_pseudo OR pe_action_runnable) \<longleftrightarrow>
     pcmk_is_set w pe_action_pseudo \<or> pcmk_is_set w pe_action_runnable"
  unfolding any_pseudo_runnable is_set_action by (rule refl)

subsection \<open>Eligibility filter\<close>

text \<open>
  C2. The eligibility filter returns true if and only if all five conditions hold: the
  instance is not orphaned, the node passes \<open>available(false, false)\<close>, the parent's view
  of the node exists, its weight is at least 0, and its count is below \<open>max_per_node\<close>.
\<close>

theorem can_run_instance_iff:
  "can_run_instance ext parent instance node max_per_node \<longleftrightarrow>
     (\<not> pcmk_is_set (flags (rsc instance)) pe_rsc_orphan
      \<and> pcmk__node_available ext (Some node) False False
      \<and> (\<exists>allowed. pcmk__top_allowed_node parent node = Some allowed
            \<and> 0 \<le> weight allowed \<and> count allowed < max_per_node))"
  by (auto simp: can_run_instance_def split: option.splits)

theorem can_run_instance_iff_witness:
  "can_run_instance demo_ext demo_collective (demo_instance ''rsc:0'' []) demo_node1 1
   \<and> \<not> can_run_instance demo_ext demo_collective (demo_instance ''rsc:0'' []) demo_node1 0"
  using can_run_instance_iff[of demo_ext demo_collective "demo_instance ''rsc:0'' []" demo_node1 1]
        can_run_instance_iff[of demo_ext demo_collective "demo_instance ''rsc:0'' []" demo_node1 0]
  by (simp add: demo_ext_def demo_instance_def demo_fields_def demo_collective_def
        pcmk__top_allowed_node_def g_hash_table_lookup_def pcmk__node_available_def
        demo_node1_def demo_node2_def
        pcmk_is_set_def pcmk_all_flags_set_def pe_rsc_orphan_def pe_rsc_provisional_def
        pe_rsc_managed_def)

subsection \<open>Optimal number of instances per node\<close>

lemma sint_udiv:
  assumes "0 \<le> m" "m < 2 ^ 31" "a \<noteq> 0"
  shows "sint ((word_of_int m :: 32 word) div a) = m div uint a"
proof -
  have u: "uint (word_of_int m :: 32 word) = m"
    using assms by (simp add: uint_word_of_int take_bit_int_eq_self)
  have d: "uint ((word_of_int m :: 32 word) div a) = m div uint a"
    by (simp add: uint_div u)
  have "uint a \<noteq> 0" using assms(3) by (simp add: uint_0_iff)
  moreover have "0 \<le> uint a" by simp
  ultimately have pos: "0 < uint a" by linarith
  have le: "m div uint a \<le> m"
    using assms(1) by (metis div_0 int_div_le_self leI nle_le)
  have ge: "0 \<le> m div uint a"
    using assms(1) pos by (simp add: pos_imp_zdiv_nonneg_iff)
  have "sint ((word_of_int m :: 32 word) div a) = signed_take_bit 31 (m div uint a)"
    by (simp add: sint_uint d)
  also have "\<dots> = m div uint a"
    using le ge assms(2) by (intro signed_take_bit_int_eq_self) auto
  finally show ?thesis .
qed

text \<open>
  C3, as stated: the optimal-per-node value equals
  \<open>max(1, floor(max_total / max(1, available)))\<close>, also when \<open>available = 0\<close>. This fails
  for \<open>max_total = 5\<close> and no available node: the code leaves the value at 0 and raises
  it to 1, the formula gives 5.
\<close>

theorem optimal_per_node_counterexample:
  "optimal_per_node_init 5 0 \<noteq> max 1 (5 div max 1 (uint (0 :: 32 word)))"
  by (simp add: optimal_per_node_init_def)

text \<open>
  C3, amended: for \<open>0 \<le> max_total\<close> (an \<^verbatim>\<open>int\<close>), the optimal-per-node value is
  \<open>max(1, floor(max_total / available))\<close> when at least one node is available, and 1 when
  none is.
\<close>

theorem optimal_per_node_value:
  assumes "0 \<le> max_total" "max_total < 2 ^ 31"
  shows "optimal_per_node_init max_total available_nodes =
     (if available_nodes = 0 then 1 else max 1 (max_total div uint available_nodes))"
  using assms sint_udiv[OF assms]
  by (auto simp: optimal_per_node_init_def Let_def word_greater_zero_iff)

theorem optimal_per_node_value_witness:
  "(0::int) \<le> 4 \<and> (4::int) < 2 ^ 31 \<and> optimal_per_node_init 4 2 = 2 \<and> optimal_per_node_init 4 0 = 1"
  using optimal_per_node_value[of 4 2] optimal_per_node_value[of 4 0] by simp

subsection \<open>Interleaving\<close>

lemma ends_with_iff: "pcmk__ends_with s m \<longleftrightarrow> (\<exists>p. s = p @ m)"
proof
  assume "pcmk__ends_with s m"
  then show "\<exists>p. s = p @ m"
    unfolding pcmk__ends_with_def
    by (metis append_Nil2 append_take_drop_id)
next
  assume "\<exists>p. s = p @ m"
  then show "pcmk__ends_with s m"
    unfolding pcmk__ends_with_def by auto
qed

text \<open>
  C4, as stated: \<^verbatim>\<open>current\<close> is true exactly when the uuid of the "then" action ends with
  \<open>_stopped_0\<close> or \<open>_demoted_0\<close>. For the ordering "A stopped, then stop B" the code sets
  \<^verbatim>\<open>current\<close>, although the uuid of the "then" action has neither ending.
\<close>

theorem interleave_current_counterexample:
  "interleave_current (demo_action ''A_stopped_0'' ''stopped'' 0 (Some 1))
                      (demo_action ''B_stop_0'' ''stop'' 0 (Some 2))
   \<noteq> (pcmk__ends_with (uuid (demo_action ''B_stop_0'' ''stop'' 0 (Some 2))) ''_stopped_0''
        \<or> pcmk__ends_with (uuid (demo_action ''B_stop_0'' ''stop'' 0 (Some 2))) ''_demoted_0'')"
  by (simp add: interleave_current_def demo_action_def pcmk__ends_with_def)

text \<open>
  C4, amended: \<^verbatim>\<open>current\<close> is true exactly when the uuid of the "first" action ends with
  \<open>_stopped_0\<close> or \<open>_demoted_0\<close>, whatever the "then" action is; this value is the one handed
  to the compatibility search and to \<^verbatim>\<open>unassign_if_mandatory\<close>.
\<close>

theorem interleave_current_first:
  "(interleave_current first thn \<longleftrightarrow>
      ((\<exists>p. uuid first = p @ ''_stopped_0'') \<or> (\<exists>p. uuid first = p @ ''_demoted_0'')))
   \<and> interleave_then_instance ext first first_rsc thn then_instance type =
       (case pcmk__find_compatible_instance ext then_instance first_rsc RSC_ROLE_UNKNOWN
               ((\<exists>p. uuid first = p @ ''_stopped_0'') \<or> (\<exists>p. uuid first = p @ ''_demoted_0'')) of
          None \<Rightarrow>
            (case unassign_if_mandatory ext first thn then_instance type
                    ((\<exists>p. uuid first = p @ ''_stopped_0'') \<or> (\<exists>p. uuid first = p @ ''_demoted_0'')) of
               (unassigned, then_instance') \<Rightarrow> No_first_instance unassigned then_instance')
        | Some first_instance \<Rightarrow> First_instance first_instance)"
proof -
  have c: "interleave_current first thn \<longleftrightarrow>
      ((\<exists>p. uuid first = p @ ''_stopped_0'') \<or> (\<exists>p. uuid first = p @ ''_demoted_0''))"
    unfolding interleave_current_def ends_with_iff by blast
  show ?thesis
    unfolding interleave_then_instance_def Let_def c by simp
qed

text \<open>
  C9. \<^verbatim>\<open>can_interleave_actions\<close> is true if and only if both actions have resources, the
  resources differ, both are clones or bundles, and the \<open>interleave\<close> meta attribute is
  true on the governing resource: the resource of "first" when the uuid of "then" ends
  with \<open>_stop_0\<close> or \<open>_demote_0\<close>, the resource of "then" otherwise. In particular it is
  false for identical resources, when either resource is a primitive, and when the
  attribute is absent.
\<close>

theorem can_interleave_actions_iff:
  "(can_interleave_actions store first thn \<longleftrightarrow>
      (\<exists>first_rsc then_rsc.
          action_rsc first = Some first_rsc \<and> action_rsc thn = Some then_rsc
          \<and> first_rsc \<noteq> then_rsc
          \<and> variant (rsc (store first_rsc)) \<in> {pe_clone, pe_container}
          \<and> variant (rsc (store then_rsc)) \<in> {pe_clone, pe_container}
          \<and> crm_is_true
               (map_of (meta (rsc (store
                    (if ((\<exists>p. uuid thn = p @ ''_stop_0'') \<or> (\<exists>p. uuid thn = p @ ''_demote_0''))
                     then first_rsc else then_rsc)))) ''interleave'')))
   \<and> (action_rsc first = action_rsc thn \<longrightarrow> \<not> can_interleave_actions store first thn)
   \<and> ((\<exists>p. action_rsc first = Some p \<and> variant (rsc (store p)) = pe_native)
        \<or> (\<exists>p. action_rsc thn = Some p \<and> variant (rsc (store p)) = pe_native)
        \<longrightarrow> \<not> can_interleave_actions store first thn)
   \<and> (\<forall>first_rsc then_rsc.
          action_rsc first = Some first_rsc \<and> action_rsc thn = Some then_rsc
          \<and> map_of (meta (rsc (store
                  (if ((\<exists>p. uuid thn = p @ ''_stop_0'') \<or> (\<exists>p. uuid thn = p @ ''_demote_0''))
                   then first_rsc else then_rsc)))) ''interleave'' = None
          \<longrightarrow> \<not> can_interleave_actions store first thn)"
proof -
  have v: "\<And>x. \<not> variant_num x < variant_num pe_clone \<longleftrightarrow> x \<in> {pe_clone, pe_container}"
    by (case_tac x) simp_all
  have e: "(pcmk__ends_with (uuid thn) ''_stop_0'' \<or> pcmk__ends_with (uuid thn) ''_demote_0'')
           \<longleftrightarrow> ((\<exists>p. uuid thn = p @ ''_stop_0'') \<or> (\<exists>p. uuid thn = p @ ''_demote_0''))"
    unfolding ends_with_iff by blast
  have main: "can_interleave_actions store first thn \<longleftrightarrow>
      (\<exists>first_rsc then_rsc.
          action_rsc first = Some first_rsc \<and> action_rsc thn = Some then_rsc
          \<and> first_rsc \<noteq> then_rsc
          \<and> variant (rsc (store first_rsc)) \<in> {pe_clone, pe_container}
          \<and> variant (rsc (store then_rsc)) \<in> {pe_clone, pe_container}
          \<and> crm_is_true
               (map_of (meta (rsc (store
                    (if ((\<exists>p. uuid thn = p @ ''_stop_0'') \<or> (\<exists>p. uuid thn = p @ ''_demote_0''))
                     then first_rsc else then_rsc)))) ''interleave''))"
    unfolding can_interleave_actions_def Let_def e XML_RSC_ATTR_INTERLEAVE_def
    using v by (cases "action_rsc first"; cases "action_rsc thn") auto
  have same: "action_rsc first = action_rsc thn \<longrightarrow> \<not> can_interleave_actions store first thn"
    unfolding main by auto
  have prim: "(\<exists>p. action_rsc first = Some p \<and> variant (rsc (store p)) = pe_native)
        \<or> (\<exists>p. action_rsc thn = Some p \<and> variant (rsc (store p)) = pe_native)
        \<longrightarrow> \<not> can_interleave_actions store first thn"
    unfolding main by auto
  have absent: "\<forall>first_rsc then_rsc.
          action_rsc first = Some first_rsc \<and> action_rsc thn = Some then_rsc
          \<and> map_of (meta (rsc (store
                  (if ((\<exists>p. uuid thn = p @ ''_stop_0'') \<or> (\<exists>p. uuid thn = p @ ''_demote_0''))
                   then first_rsc else then_rsc)))) ''interleave'' = None
          \<longrightarrow> \<not> can_interleave_actions store first thn"
    unfolding main by (auto simp: crm_is_true_def)
  show ?thesis using main same prim absent by blast
qed

lemma demo_store_simps:
  "variant (rsc (demo_store p)) = pe_clone"
  "map_of (meta (rsc (demo_store p))) ''interleave'' = (if p = 1 then Some ''true'' else None)"
  by (simp_all add: demo_store_def demo_collective_def demo_fields_def)

lemma crm_is_true_true: "crm_is_true (Some ''true'')" "\<not> crm_is_true None"
  by (simp_all add: crm_is_true_def ascii_tolower_def)

theorem can_interleave_actions_witness:
  "can_interleave_actions demo_store (demo_action ''other_started_0'' ''started'' 0 (Some 2))
      (demo_action ''clone_start_0'' ''start'' 0 (Some 1))
   \<and> \<not> can_interleave_actions demo_store (demo_action ''clone_start_0'' ''start'' 0 (Some 1))
      (demo_action ''clone_started_0'' ''started'' 0 (Some 1))
   \<and> can_interleave_actions demo_store (demo_action ''clone_stopped_0'' ''stopped'' 0 (Some 1))
      (demo_action ''other_stop_0'' ''stop'' 0 (Some 2))
   \<and> \<not> can_interleave_actions demo_store (demo_action ''other_stopped_0'' ''stopped'' 0 (Some 2))
      (demo_action ''clone_stop_0'' ''stop'' 0 (Some 1))"
  using can_interleave_actions_iff[of demo_store "demo_action ''other_started_0'' ''started'' 0 (Some 2)"
          "demo_action ''clone_start_0'' ''start'' 0 (Some 1)"]
        can_interleave_actions_iff[of demo_store "demo_action ''clone_start_0'' ''start'' 0 (Some 1)"
          "demo_action ''clone_started_0'' ''started'' 0 (Some 1)"]
        can_interleave_actions_iff[of demo_store "demo_action ''clone_stopped_0'' ''stopped'' 0 (Some 1)"
          "demo_action ''other_stop_0'' ''stop'' 0 (Some 2)"]
        can_interleave_actions_iff[of demo_store "demo_action ''other_stopped_0'' ''stopped'' 0 (Some 2)"
          "demo_action ''clone_stop_0'' ''stop'' 0 (Some 1)"]
  by (simp add: demo_action_def demo_store_simps crm_is_true_true ends_with_iff[symmetric]
        pcmk__ends_with_def)

subsection \<open>Compatibility matcher\<close>

text \<open>
  C10. \<^verbatim>\<open>pcmk__instance_matches\<close> returns false when the instance or the node is null; a
  true result requires an instance, a node, and a location of the instance whose node
  identity is that of the given node.
\<close>

theorem instance_matches_safe:
  "(instance = None \<or> node = None \<longrightarrow> \<not> pcmk__instance_matches ext instance node role current)
   \<and> (pcmk__instance_matches ext instance node role current \<longrightarrow>
        (\<exists>i n l. instance = Some i \<and> node = Some n
           \<and> rsc_location ext i current = Some l \<and> details l = details n))"
  by (auto simp: pcmk__instance_matches_def Let_def split: option.splits if_splits)

theorem instance_matches_safe_witness:
  "\<not> pcmk__instance_matches demo_ext None (Some demo_node1) RSC_ROLE_UNKNOWN False
   \<and> pcmk__instance_matches demo_ext (Some (demo_instance ''rsc:0'' [demo_node1])) (Some demo_node1)
        RSC_ROLE_UNKNOWN True
   \<and> rsc_location demo_ext (demo_instance ''rsc:0'' [demo_node1]) True = Some demo_node1"
  using instance_matches_safe[of None "Some demo_node1" demo_ext RSC_ROLE_UNKNOWN False]
        instance_matches_safe[of "Some (demo_instance ''rsc:0'' [demo_node1])" "Some demo_node1"
           demo_ext RSC_ROLE_UNKNOWN True]
  by (simp add: pcmk__instance_matches_def demo_ext_def demo_instance_def demo_fields_def
        pcmk_is_set_def pcmk_all_flags_set_def pe_rsc_block_def pe_rsc_provisional_def
        pe_rsc_managed_def)


subsection \<open>Instance-state summarizer\<close>

lemma check_actions_loop_restarting:
  "pcmk_is_set (check_actions_loop as st) instance_restarting = pcmk_is_set st instance_restarting"
  by (induction as arbitrary: st)
     (simp_all add: Let_def state_or state_consts)

lemma check_actions_loop_both:
  "pcmk_is_set (check_actions_loop as st) instance_starting
   \<and> pcmk_is_set (check_actions_loop as st) instance_stopping \<longleftrightarrow>
     (pcmk_is_set st instance_starting \<or> (\<exists>a \<in> set as. task a = ''start''
         \<and> \<not> pcmk_is_set (action_flags a) pe_action_optional
         \<and> pcmk_is_set (action_flags a) pe_action_runnable))
     \<and> (pcmk_is_set st instance_stopping \<or> (\<exists>a \<in> set as. task a = ''stop''
         \<and> \<not> pcmk_is_set (action_flags a) pe_action_optional
         \<and> (pcmk_is_set (action_flags a) pe_action_runnable
              \<or> pcmk_is_set (action_flags a) pe_action_pseudo)))"
proof (induction as arbitrary: st)
  case Nil
  then show ?case by simp
next
  case (Cons a as)
  show ?case
  proof (cases "pcmk_is_set st instance_starting \<and> pcmk_is_set st instance_stopping")
    case True
    then show ?thesis by (simp add: all_set_state)
  next
    case False
    let ?st' = "if RSC_START = task a then
                 (if \<not> pcmk_is_set (action_flags a) pe_action_optional
                     \<and> pcmk_is_set (action_flags a) pe_action_runnable
                  then st OR instance_starting else st)
               else if RSC_STOP = task a then
                 (if \<not> pcmk_is_set (action_flags a) pe_action_optional
                     \<and> pcmk_any_flags_set (action_flags a) (pe_action_pseudo OR pe_action_runnable)
                  then st OR instance_stopping else st)
               else st"
    have nc: "\<not> pcmk_all_flags_set st (instance_starting OR instance_stopping)"
      using False by (simp add: all_set_state(1))
    have eq: "check_actions_loop (a # as) st = check_actions_loop as ?st'"
      using nc by (simp add: Let_def)
    have s: "pcmk_is_set ?st' instance_starting \<longleftrightarrow>
               pcmk_is_set st instance_starting \<or> (task a = ''start''
                 \<and> \<not> pcmk_is_set (action_flags a) pe_action_optional
                 \<and> pcmk_is_set (action_flags a) pe_action_runnable)"
      by (cases "task a = ''start''") (auto simp: state_or state_consts RSC_START_def RSC_STOP_def)
    have t: "pcmk_is_set ?st' instance_stopping \<longleftrightarrow>
               pcmk_is_set st instance_stopping \<or> (task a = ''stop''
                 \<and> \<not> pcmk_is_set (action_flags a) pe_action_optional
                 \<and> (pcmk_is_set (action_flags a) pe_action_runnable
                      \<or> pcmk_is_set (action_flags a) pe_action_pseudo))"
      by (cases "task a = ''start''")
         (auto simp: state_or state_consts RSC_START_def RSC_STOP_def any_pseudo_runnable_is_set)
    show ?thesis
      unfolding eq Cons.IH[of ?st'] s t by auto
  qed
qed

lemma check_primitive_restarting:
  assumes "\<not> variant_num (variant f) > variant_num pe_native"
  shows "pcmk_is_set (check_instance_state (Rsc f cs) st) instance_restarting \<longleftrightarrow>
           pcmk_is_set st instance_restarting \<or> (is_starting (Rsc f cs) \<and> is_stopping (Rsc f cs))"
proof (cases "pcmk_all_flags_set st instance_all")
  case True
  then show ?thesis by (simp add: all_set_state)
next
  case False
  define s0 :: "32 word" where "s0 = (if running_on f \<noteq> [] then 0 OR instance_active else 0)"
  define s1 where "s1 = check_actions_loop (actions f) s0"
  have s0: "\<not> pcmk_is_set s0 instance_starting" "\<not> pcmk_is_set s0 instance_stopping"
           "\<not> pcmk_is_set s0 instance_restarting"
    by (simp_all add: s0_def state_or state_consts)
  have r: "\<not> pcmk_is_set s1 instance_restarting"
    using s0 by (simp add: s1_def check_actions_loop_restarting)
  have both: "pcmk_is_set s1 instance_starting \<and> pcmk_is_set s1 instance_stopping \<longleftrightarrow>
                is_starting (Rsc f cs) \<and> is_stopping (Rsc f cs)"
    unfolding s1_def check_actions_loop_both is_starting_def is_stopping_def using s0 by simp
  have eq: "check_instance_state (Rsc f cs) st =
          st OR (if pcmk_is_set s1 instance_starting \<and> pcmk_is_set s1 instance_stopping
                 then s1 OR instance_restarting else s1)"
    using False assms by (simp add: Let_def all_set_state(1) s1_def s0_def)
  show ?thesis
  proof (cases "pcmk_is_set s1 instance_starting \<and> pcmk_is_set s1 instance_stopping")
    case True
    then show ?thesis using both unfolding eq by (simp add: state_or state_consts)
  next
    case False
    then show ?thesis using both r unfolding eq by (auto simp: state_or)
  qed
qed

lemma check_instance_state_restarting:
  "pcmk_is_set (check_instance_state r st) instance_restarting \<longleftrightarrow>
     pcmk_is_set st instance_restarting
     \<or> (\<exists>p \<in> set (primitives r). is_starting p \<and> is_stopping p)"
  and "pcmk_is_set (check_children_loop rs st) instance_restarting \<longleftrightarrow>
     pcmk_is_set st instance_restarting
     \<or> (\<exists>c \<in> set rs. \<exists>p \<in> set (primitives c). is_starting p \<and> is_stopping p)"
proof (induction r st and rs st rule: check_instance_state_check_children_loop.induct)
  case (1 f cs state)
  show ?case
  proof (cases "pcmk_all_flags_set state instance_all")
    case True
    then show ?thesis by (simp add: all_set_state)
  next
    case nall: False
    show ?thesis
    proof (cases "variant_num (variant f) > variant_num pe_native")
      case True
      have "check_instance_state (Rsc f cs) state = check_children_loop cs state"
        using nall True by simp
      moreover have "primitives (Rsc f cs) = concat (map primitives cs)" using True by simp
      ultimately show ?thesis using "1.IH"[OF nall True] by auto
    next
      case False
      have "primitives (Rsc f cs) = [Rsc f cs]" using False by simp
      then show ?thesis using check_primitive_restarting[OF False] by simp
    qed
  qed
next
  case (2 state)
  then show ?case by simp
next
  case (3 c cs state)
  show ?case
  proof (cases "pcmk_all_flags_set state instance_all")
    case True
    then show ?thesis by (simp add: all_set_state)
  next
    case False
    then show ?thesis using "3.IH"(1)[OF False] "3.IH"(2)[OF False] by auto
  qed
qed

text \<open>
  C6. \<^verbatim>\<open>check_instance_state\<close> sets the restarting bit only when a single primitive
  instance is both starting and stopping: the bit is set in the result exactly when it
  was set before or some primitive below the instance is starting and stopping. One
  instance starting and another one stopping does not set it.
\<close>

theorem restarting_same_instance:
  "pcmk_is_set (check_instance_state instance state) instance_restarting \<longleftrightarrow>
     pcmk_is_set state instance_restarting
     \<or> (\<exists>p \<in> set (primitives instance). is_starting p \<and> is_stopping p)"
  by (rule check_instance_state_restarting(1))

lemma demo_flag_eval:
  "pcmk_is_set pe_action_runnable pe_action_runnable"
  "\<not> pcmk_is_set pe_action_runnable pe_action_optional"
  "\<not> pcmk_is_set pe_action_runnable pe_action_pseudo"
  "pcmk_is_set (pe_action_runnable OR pe_action_optional) pe_action_optional"
  by (simp_all add: pcmk_is_set_def pcmk_all_flags_set_def pe_action_runnable_def
        pe_action_optional_def pe_action_pseudo_def)

theorem restarting_same_instance_witness:
  "\<not> pcmk_is_set (check_instance_state demo_group 0) instance_restarting
   \<and> (\<exists>p \<in> set (primitives demo_group). is_starting p)
   \<and> (\<exists>p \<in> set (primitives demo_group). is_stopping p)
   \<and> pcmk_is_set (check_instance_state demo_restarting 0) instance_restarting"
  using restarting_same_instance[of demo_group 0] restarting_same_instance[of demo_restarting 0]
  by (simp add: demo_group_def demo_restarting_def demo_primitive_def demo_fields_def
        demo_action_def is_starting_def is_stopping_def demo_flag_eval state_consts)

subsection \<open>Collective action-flag folder\<close>

lemma action_or:
  "pcmk_is_set ((a::32 word) OR b) pe_action_pseudo \<longleftrightarrow>
     pcmk_is_set a pe_action_pseudo \<or> pcmk_is_set b pe_action_pseudo"
  "pcmk_is_set ((a::32 word) OR b) pe_action_runnable \<longleftrightarrow>
     pcmk_is_set a pe_action_runnable \<or> pcmk_is_set b pe_action_runnable"
  "pcmk_is_set ((a::32 word) OR b) pe_action_optional \<longleftrightarrow>
     pcmk_is_set a pe_action_optional \<or> pcmk_is_set b pe_action_optional"
  unfolding action_bits by (rule is_set_or_exp, simp)+

lemma action_and_not:
  "\<not> pcmk_is_set ((a::32 word) AND NOT pe_action_optional) pe_action_optional"
  "pcmk_is_set ((a::32 word) AND NOT pe_action_optional) pe_action_runnable \<longleftrightarrow>
     pcmk_is_set a pe_action_runnable"
  "pcmk_is_set ((a::32 word) AND NOT pe_action_optional) pe_action_pseudo \<longleftrightarrow>
     pcmk_is_set a pe_action_pseudo"
  "\<not> pcmk_is_set ((a::32 word) AND NOT pe_action_runnable) pe_action_runnable"
  "pcmk_is_set ((a::32 word) AND NOT pe_action_runnable) pe_action_optional \<longleftrightarrow>
     pcmk_is_set a pe_action_optional"
  "pcmk_is_set ((a::32 word) AND NOT pe_action_runnable) pe_action_pseudo \<longleftrightarrow>
     pcmk_is_set a pe_action_pseudo"
  unfolding action_bits by (simp_all only: is_set_and_not_exp len_bit0 len_num1) simp_all

lemma action_consts:
  "pcmk_is_set pe_action_pseudo pe_action_pseudo"
  "pcmk_is_set pe_action_runnable pe_action_runnable"
  "pcmk_is_set pe_action_optional pe_action_optional"
  unfolding action_bits by (simp_all only: is_set_exp_exp len_bit0 len_num1) 

lemma collective_flags_loop_eq:
  "collective_flags_loop ext action_name node insts (flgs, act, any_runnable) =
     (let present = present_action_flags ext action_name node insts;
          clear = (pcmk_is_set flgs pe_action_optional
                   \<and> \<not> (\<forall>f \<in> set present. pcmk_is_set f pe_action_optional))
      in (if clear then flgs AND NOT pe_action_optional else flgs,
          if clear then act\<lparr>action_flags := action_flags act AND NOT pe_action_optional\<rparr>
          else act,
          any_runnable \<or> (\<exists>f \<in> set present. pcmk_is_set f pe_action_runnable)))"
proof (induction insts arbitrary: flgs act any_runnable)
  case Nil
  then show ?case by simp
next
  case (Cons inst rest)
  show ?case
  proof (cases "find_first_action (actions (rsc inst)) action_name
                  (if variant (rsc inst) = pe_native then node else None)")
    case None
    then show ?thesis by (simp add: Cons.IH Let_def)
  next
    case (Some ia)
    show ?thesis
    proof (cases "pcmk_is_set flgs pe_action_optional
                  \<and> \<not> pcmk_is_set (rsc_action_flags ext inst ia node) pe_action_optional")
      case True
      then show ?thesis using Some
        by (simp add: Cons.IH Let_def action_and_not)
    next
      case False
      then show ?thesis using Some
        by (auto simp add: Cons.IH Let_def)
    qed
  qed
qed

text \<open>
  C5. For a collective action whose original action name is defined, the returned flags
  have \<open>optional\<close> set exactly when every instance that has a matching action reports
  it optional, and \<open>runnable\<close> set exactly when some such instance reports it runnable;
  instances without a matching action do not take part. On the action object, the
  optional bit is cleared whenever the fold clears it, and the runnable bit is cleared
  only when the fold clears it and no node was given.
\<close>

theorem collective_action_flags_fold:
  assumes "orig_action_name ext store act = Some action_name"
  shows "\<exists>flgs act'.
     pcmk__collective_action_flags ext store act insts node = Some (flgs, act')
     \<and> (pcmk_is_set flgs pe_action_optional \<longleftrightarrow>
          (\<forall>f \<in> set (present_action_flags ext action_name node insts).
              pcmk_is_set f pe_action_optional))
     \<and> (pcmk_is_set flgs pe_action_runnable \<longleftrightarrow>
          (\<exists>f \<in> set (present_action_flags ext action_name node insts).
              pcmk_is_set f pe_action_runnable))
     \<and> act' = act\<lparr>action_flags :=
          (let kept = (if \<forall>f \<in> set (present_action_flags ext action_name node insts).
                             pcmk_is_set f pe_action_optional
                       then action_flags act
                       else action_flags act AND NOT pe_action_optional)
           in if (\<exists>f \<in> set (present_action_flags ext action_name node insts).
                     pcmk_is_set f pe_action_runnable) \<or> node \<noteq> None
              then kept
              else kept AND NOT pe_action_runnable)\<rparr>"
proof -
  define A where "A = (\<forall>f \<in> set (present_action_flags ext action_name node insts).
                         pcmk_is_set f pe_action_optional)"
  define B where "B = (\<exists>f \<in> set (present_action_flags ext action_name node insts).
                         pcmk_is_set f pe_action_runnable)"
  let ?f0 = "pe_action_optional OR pe_action_runnable OR pe_action_pseudo"
  have f0: "pcmk_is_set ?f0 pe_action_optional" "pcmk_is_set ?f0 pe_action_runnable"
    by (simp_all add: action_or action_consts)
  have loop: "collective_flags_loop ext action_name node insts (?f0, act, False) =
          (if \<not> A then ?f0 AND NOT pe_action_optional else ?f0,
           if \<not> A then act\<lparr>action_flags := action_flags act AND NOT pe_action_optional\<rparr>
           else act, B)"
    unfolding collective_flags_loop_eq Let_def A_def B_def using f0 by simp
  have "\<exists>flgs act'.
     pcmk__collective_action_flags ext store act insts node = Some (flgs, act')
     \<and> (pcmk_is_set flgs pe_action_optional \<longleftrightarrow> A)
     \<and> (pcmk_is_set flgs pe_action_runnable \<longleftrightarrow> B)
     \<and> act' = act\<lparr>action_flags :=
          (let kept = (if A then action_flags act
                       else action_flags act AND NOT pe_action_optional)
           in if B \<or> node \<noteq> None then kept else kept AND NOT pe_action_runnable)\<rparr>"
  proof -
    have eq: "pcmk__collective_action_flags ext store act insts node =
       (if \<not> B
        then Some ((if \<not> A then ?f0 AND NOT pe_action_optional else ?f0) AND NOT pe_action_runnable,
                   (if node = None
                    then (if \<not> A then act\<lparr>action_flags := action_flags act AND NOT pe_action_optional\<rparr>
                          else act)
                         \<lparr>action_flags := action_flags
                            (if \<not> A then act\<lparr>action_flags := action_flags act AND NOT pe_action_optional\<rparr>
                             else act) AND NOT pe_action_runnable\<rparr>
                    else (if \<not> A then act\<lparr>action_flags := action_flags act AND NOT pe_action_optional\<rparr>
                          else act)))
        else Some (if \<not> A then ?f0 AND NOT pe_action_optional else ?f0,
                   if \<not> A then act\<lparr>action_flags := action_flags act AND NOT pe_action_optional\<rparr>
                   else act))"
      by (simp only: pcmk__collective_action_flags_def assms loop option.case Let_def prod.case)
    show ?thesis
      unfolding eq
      by (cases A; cases B; cases node)
         (simp_all add: Let_def f0 action_and_not)
  qed
  then show ?thesis unfolding A_def B_def .
qed

lemma demo_orig_action_name: "orig_action_name demo_ext demo_store demo_clone_start = Some ''start''"
  by (simp add: orig_action_name_def demo_clone_start_def demo_action_def demo_store_def
        demo_collective_def demo_ext_def demo_task_def demo_text_def pcmk__strcase_any_of_def
        CRMD_ACTION_NOTIFY_def CRMD_ACTION_NOTIFIED_def ascii_tolower_def)

lemma demo_present_flags:
  "present_action_flags demo_ext ''start'' None demo_start_instances =
     [pe_action_runnable OR pe_action_optional, pe_action_runnable]"
  by (simp add: demo_start_instances_def demo_primitive_def demo_action_def demo_ext_def
        demo_fields_def)

lemma demo_clone_start_flags:
  "action_flags demo_clone_start = pe_action_optional OR pe_action_runnable OR pe_action_pseudo"
  by (simp add: demo_clone_start_def demo_action_def)

theorem collective_action_flags_fold_witness:
  "orig_action_name demo_ext demo_store demo_clone_start = Some ''start''
   \<and> (\<exists>flgs act'.
         pcmk__collective_action_flags demo_ext demo_store demo_clone_start demo_start_instances None
           = Some (flgs, act')
         \<and> \<not> pcmk_is_set flgs pe_action_optional
         \<and> pcmk_is_set flgs pe_action_runnable
         \<and> \<not> pcmk_is_set (action_flags act') pe_action_optional
         \<and> pcmk_is_set (action_flags act') pe_action_runnable)"
  using collective_action_flags_fold[OF demo_orig_action_name, of demo_start_instances None]
  by (auto simp: demo_orig_action_name demo_present_flags demo_flag_eval action_or action_consts
        action_and_not demo_clone_start_flags)

subsection \<open>Instance assignment\<close>

















lemma allocated_to_unassign: "allocated_to (rsc (pcmk__unassign_resource r)) = None"
  by (simp add: pcmk__unassign_resource_def set_fields_def)






















lemma demo_provisional:
  "pcmk_is_set (pe_rsc_provisional OR pe_rsc_managed) pe_rsc_provisional"
  "\<not> pcmk_is_set (pe_rsc_provisional OR pe_rsc_managed) pe_rsc_allocating"
  "\<not> pcmk_is_set (pe_rsc_provisional OR pe_rsc_managed) pe_rsc_orphan"
  "\<not> pcmk_is_set (pe_rsc_provisional OR pe_rsc_managed) pe_rsc_failed"
  by (simp_all add: pcmk_is_set_def pcmk_all_flags_set_def pe_rsc_provisional_def
        pe_rsc_managed_def pe_rsc_allocating_def pe_rsc_orphan_def pe_rsc_failed_def)













lemma assign_remaining_loop_limit:
  assumes "max_total \<le> assigned"
  shows "assign_remaining_loop ext all_coloc max_total max_per_node insts collective assigned =
           (map (\<lambda>i. if pcmk_is_set (flags (rsc i)) pe_rsc_provisional
                      then resource_location ext i None (- INFINITY) ''collective_limit_reached''
                      else i) insts,
            collective, assigned)"
  using assms by (induction insts) simp_all

text \<open>
  C7. In the second pass, once the counter has reached \<open>max_total\<close>, every instance that
  is still provisional is not assigned but receives a \<open>-INFINITY\<close> resource-level location
  (no node given) with the reason \<open>collective_limit_reached\<close>; the counter and the parent
  are unchanged, and the result does not depend on the \<^verbatim>\<open>assign\<close> method, which is
  not called.
\<close>

theorem limit_reached_ban:
  assumes "max_total \<le> assigned"
  shows "assign_remaining_loop ext all_coloc max_total max_per_node insts collective assigned =
           (map (\<lambda>i. if pcmk_is_set (flags (rsc i)) pe_rsc_provisional
                      then resource_location ext i None (- INFINITY) ''collective_limit_reached''
                      else i) insts,
            collective, assigned)
       \<and> assign_remaining_loop (ext\<lparr>assign := other_assign\<rparr>) all_coloc max_total max_per_node
             insts collective assigned =
           assign_remaining_loop ext all_coloc max_total max_per_node insts collective assigned"
  using assign_remaining_loop_limit[OF assms, of ext]
        assign_remaining_loop_limit[OF assms, of "ext\<lparr>assign := other_assign\<rparr>"]
  by simp

theorem limit_reached_ban_witness:
  "(2::int) \<le> 2
   \<and> assign_remaining_loop demo_ext False 2 1 [demo_instance ''rsc:2'' []] demo_collective 2 =
       ([demo_resource_location (demo_instance ''rsc:2'' []) None (- INFINITY) ''collective_limit_reached''],
        demo_collective, 2)"
  using limit_reached_ban[of 2 2 demo_ext False 1 "[demo_instance ''rsc:2'' []]" demo_collective]
  by (simp add: demo_instance_def demo_fields_def demo_provisional)
     (simp add: demo_ext_def)

lemma provisional_bit: "pe_rsc_provisional = 2 ^ 8"
  by (simp add: pe_rsc_provisional_def)

lemma unassign_provisional:
  "pcmk_is_set (flags (rsc (pcmk__unassign_resource r))) pe_rsc_provisional"
proof -
  have "pcmk_is_set (flags (rsc r) OR (2 ^ 8 :: 64 word)) (2 ^ 8)"
    by (subst is_set_or_exp) (simp_all only: is_set_exp_exp len_bit0 len_num1, simp_all)
  then show ?thesis
    by (simp only: pcmk__unassign_resource_def set_fields_def provisional_bit) simp
qed

lemma unassign_allowed_nodes:
  "allowed_nodes (rsc (pcmk__unassign_resource r)) = allowed_nodes (rsc r)"
  by (simp add: pcmk__unassign_resource_def set_fields_def)


lemma assign_instance_early:
  assumes "pcmk_is_set (flags (rsc inst)) pe_rsc_provisional"
      and "pcmk_is_set (flags (rsc inst)) pe_rsc_allocating
           \<or> g_hash_table_lookup (allowed_nodes (rsc inst)) (node_id (details p)) = None
           \<or> (\<exists>allowed. g_hash_table_lookup (allowed_nodes (rsc inst)) (node_id (details p)) = Some allowed
                  \<and> weight allowed < 0)"
  shows "assign_instance ext parent inst (Some p) all_coloc max_per_node = (False, inst, parent)"
proof (cases "pcmk_is_set (flags (rsc inst)) pe_rsc_allocating")
  case True
  then show ?thesis using assms(1) by (simp add: assign_instance_def)
next
  case False
  show ?thesis
  proof (cases "g_hash_table_lookup (allowed_nodes (rsc inst)) (node_id (details p))")
    case None
    then show ?thesis using assms(1) False by (simp add: assign_instance_def)
  next
    case (Some allowed)
    then have "weight allowed < 0" using assms(2) False by simp
    then show ?thesis using assms(1) False Some by (simp add: assign_instance_def)
  qed
qed

lemma assign_instance_reached:
  assumes "pcmk_is_set (flags (rsc inst)) pe_rsc_provisional"
      and "\<not> pcmk_is_set (flags (rsc inst)) pe_rsc_allocating"
      and "g_hash_table_lookup (allowed_nodes (rsc inst)) (node_id (details p)) = Some allowed"
      and "0 \<le> weight allowed"
      and "assign ext (ban_unavailable_allowed_nodes ext parent inst max_per_node) (Some p)
                  = (assigned, chosen)"
  shows "assign_instance ext parent inst (Some p) all_coloc max_per_node =
           (case chosen of
              None \<Rightarrow> (False, assigned, parent)
            | Some c \<Rightarrow>
                if details c \<noteq> details p
                then (False,
                      pcmk__unassign_resource
                        (set_fields (\<lambda>f. f\<lparr>allowed_nodes :=
                           allowed_nodes (rsc (ban_unavailable_allowed_nodes ext parent inst max_per_node))\<rparr>)
                           assigned),
                      parent)
                else (True, assigned, count_assignment parent c))"
proof -
  have w: "\<not> weight allowed < 0" using assms(4) by simp
  show ?thesis
    unfolding assign_instance_def count_assignment_def pcmk__copy_node_table_def Let_def
    by (simp add: assms(1,2,3,5) w split: option.splits)
qed

text \<open>
  C8. For a provisional instance and a preferred node: when the instance is being
  assigned already, or its table has no entry for the preferred node or a negative
  score, \<^verbatim>\<open>assign_instance\<close> returns false and changes nothing. Otherwise the table is
  snapshot after the bans and before the delegated assign; if the delegated assign
  chooses a node other than the preferred one, the call returns false, the parent is
  unchanged, and the instance has the snapshot as its table, is provisional and has no
  chosen node; if not, the instance is as the delegated assign left it.
\<close>

theorem assign_instance_prefer_rollback:
  assumes prov: "pcmk_is_set (flags (rsc inst)) pe_rsc_provisional"
      and asg: "assign ext (ban_unavailable_allowed_nodes ext parent inst max_per_node) (Some p)
                  = (assigned, chosen)"
  shows "(pcmk_is_set (flags (rsc inst)) pe_rsc_allocating
          \<or> (\<forall>allowed. g_hash_table_lookup (allowed_nodes (rsc inst)) (node_id (details p)) = Some allowed
                \<longrightarrow> weight allowed < 0)
          \<longrightarrow> assign_instance ext parent inst (Some p) all_coloc max_per_node = (False, inst, parent))
     \<and> (\<not> pcmk_is_set (flags (rsc inst)) pe_rsc_allocating
          \<and> (\<exists>allowed. g_hash_table_lookup (allowed_nodes (rsc inst)) (node_id (details p)) = Some allowed
                \<and> 0 \<le> weight allowed)
          \<longrightarrow> (if \<exists>c. chosen = Some c \<and> details c \<noteq> details p
               then \<exists>inst'. assign_instance ext parent inst (Some p) all_coloc max_per_node
                               = (False, inst', parent)
                      \<and> allowed_nodes (rsc inst')
                          = allowed_nodes (rsc (ban_unavailable_allowed_nodes ext parent inst max_per_node))
                      \<and> pcmk_is_set (flags (rsc inst')) pe_rsc_provisional
                      \<and> allocated_to (rsc inst') = None
               else \<exists>parent'. assign_instance ext parent inst (Some p) all_coloc max_per_node
                               = (chosen \<noteq> None, assigned, parent')))"
proof (intro conjI impI)
  assume e: "pcmk_is_set (flags (rsc inst)) pe_rsc_allocating
          \<or> (\<forall>allowed. g_hash_table_lookup (allowed_nodes (rsc inst)) (node_id (details p)) = Some allowed
                \<longrightarrow> weight allowed < 0)"
  have "pcmk_is_set (flags (rsc inst)) pe_rsc_allocating
           \<or> g_hash_table_lookup (allowed_nodes (rsc inst)) (node_id (details p)) = None
           \<or> (\<exists>allowed. g_hash_table_lookup (allowed_nodes (rsc inst)) (node_id (details p)) = Some allowed
                  \<and> weight allowed < 0)"
  proof (cases "g_hash_table_lookup (allowed_nodes (rsc inst)) (node_id (details p))")
    case None
    then show ?thesis by simp
  next
    case (Some allowed)
    then show ?thesis using e by simp
  qed
  with prov show "assign_instance ext parent inst (Some p) all_coloc max_per_node = (False, inst, parent)"
    by (rule assign_instance_early)
next
  assume a: "\<not> pcmk_is_set (flags (rsc inst)) pe_rsc_allocating
          \<and> (\<exists>allowed. g_hash_table_lookup (allowed_nodes (rsc inst)) (node_id (details p)) = Some allowed
                \<and> 0 \<le> weight allowed)"
  then have na: "\<not> pcmk_is_set (flags (rsc inst)) pe_rsc_allocating" by (rule conjunct1)
  from a obtain allowed where al:
      "g_hash_table_lookup (allowed_nodes (rsc inst)) (node_id (details p)) = Some allowed"
      "0 \<le> weight allowed" by blast
  let ?banned = "ban_unavailable_allowed_nodes ext parent inst max_per_node"
  let ?restored = "set_fields (\<lambda>f. f\<lparr>allowed_nodes := allowed_nodes (rsc ?banned)\<rparr>) assigned"
  note eq = assign_instance_reached[OF prov na al asg, of all_coloc]
  show "if \<exists>c. chosen = Some c \<and> details c \<noteq> details p
        then \<exists>inst'. assign_instance ext parent inst (Some p) all_coloc max_per_node
                               = (False, inst', parent)
                      \<and> allowed_nodes (rsc inst') = allowed_nodes (rsc ?banned)
                      \<and> pcmk_is_set (flags (rsc inst')) pe_rsc_provisional
                      \<and> allocated_to (rsc inst') = None
        else \<exists>parent'. assign_instance ext parent inst (Some p) all_coloc max_per_node
                               = (chosen \<noteq> None, assigned, parent')"
  proof (cases chosen)
    case None
    then show ?thesis unfolding eq by simp
  next
    case (Some c)
    show ?thesis
    proof (cases "details c = details p")
      case True
      then show ?thesis unfolding eq Some by simp
    next
      case False
      have t: "allowed_nodes (rsc (pcmk__unassign_resource ?restored)) = allowed_nodes (rsc ?banned)"
        by (simp add: unassign_allowed_nodes set_fields_def)
      show ?thesis unfolding eq Some using False t unassign_provisional[of ?restored]
          allocated_to_unassign[of ?restored] by simp
    qed
  qed
qed

lemma demo_rollback_facts:
  "pcmk_is_set (flags (rsc (demo_instance ''rsc:1'' [demo_node1]))) pe_rsc_provisional"
  "\<not> pcmk_is_set (flags (rsc (demo_instance ''rsc:1'' [demo_node1]))) pe_rsc_allocating"
  "g_hash_table_lookup (allowed_nodes (rsc (demo_instance ''rsc:1'' [demo_node1])))
      (node_id (details demo_node1)) = Some demo_node1"
  "0 \<le> weight demo_node1"
  "allowed_nodes (rsc (ban_unavailable_allowed_nodes demo_ext demo_collective_one
      (demo_instance ''rsc:1'' [demo_node1]) 1)) = Some [demo_node1\<lparr>weight := - INFINITY\<rparr>, demo_node2]"
  "snd (assign demo_ext (ban_unavailable_allowed_nodes demo_ext demo_collective_one
      (demo_instance ''rsc:1'' [demo_node1]) 1) (Some demo_node1)) = Some demo_node2"
  "details demo_node2 \<noteq> details demo_node1"
  by code_simp+

theorem assign_instance_prefer_rollback_witness:
  "pcmk_is_set (flags (rsc (demo_instance ''rsc:1'' [demo_node1]))) pe_rsc_provisional
   \<and> snd (assign demo_ext (ban_unavailable_allowed_nodes demo_ext demo_collective_one
              (demo_instance ''rsc:1'' [demo_node1]) 1) (Some demo_node1)) = Some demo_node2
   \<and> (\<exists>inst'. assign_instance demo_ext demo_collective_one (demo_instance ''rsc:1'' [demo_node1])
                  (Some demo_node1) False 1 = (False, inst', demo_collective_one)
          \<and> allowed_nodes (rsc inst') = Some [demo_node1\<lparr>weight := - INFINITY\<rparr>, demo_node2]
          \<and> pcmk_is_set (flags (rsc inst')) pe_rsc_provisional
          \<and> allocated_to (rsc inst') = None)"
  using assign_instance_prefer_rollback[where ext = demo_ext and parent = demo_collective_one
          and inst = "demo_instance ''rsc:1'' [demo_node1]" and max_per_node = 1
          and p = demo_node1 and all_coloc = False,
          OF demo_rollback_facts(1) surjective_pairing]
        demo_rollback_facts
  by auto

end
